theory Spec2Isabelle
  imports Complex_Main "HOL-Library.Log_Nat"
begin

section \<open>Mesh lines of optools: the uniform and the adaptive families\<close>

text \<open>
  The embedding follows \<^verbatim>\<open>optools/utils/__init__.py\<close>, \<^verbatim>\<open>optools/mesh/base.py\<close>,
  \<^verbatim>\<open>optools/mesh/constant.py\<close>, \<^verbatim>\<open>optools/mesh/uniform.py\<close> and
  \<^verbatim>\<open>optools/mesh/adaptive.py\<close>.

  Numbers. The code computes on the numbers the caller passes: Python's \<^verbatim>\<open>int\<close>
  (unbounded, exact) and \<^verbatim>\<open>float\<close> (IEEE 754 binary64). The model has both: a number is
  \<open>PyInt\<close> of an \<^typ>\<open>int\<close> or \<open>PyFloat\<close> of a double, and every operation rounds,
  overflows and raises as Python's does. A finite double is given by its exact rational
  value; the two zeros of binary64 are one value \<open>Finite 0\<close>, which no result of this
  program tells apart (a division by either raises).

  Errors. Every raise is a value: a view or a wither returns \<open>py_error + 'a\<close>, with
  \<open>Inl\<close> for the exception.
\<close>

subsection \<open>Errors\<close>

datatype py_error = ZeroDivisionError | ValueError | OverflowError

text \<open>Sequencing: the first exception raised is the outcome.\<close>

definition and_then :: "'e + 'a \<Rightarrow> ('a \<Rightarrow> 'e + 'b) \<Rightarrow> 'e + 'b" where
  "and_then r f = (case r of Inl err \<Rightarrow> Inl err | Inr v \<Rightarrow> f v)"

subsection \<open>Doubles\<close>

datatype pyfloat = Finite rat | PosInf | NegInf | NaN

text \<open>The nearest integer, a tie going to the even one.\<close>

definition round_half_even :: "rat \<Rightarrow> int" where
  "round_half_even m =
     (let f = \<lfloor>m\<rfloor>; r = m - of_int f
      in if r < 1 / 2 then f
         else if 1 / 2 < r then f + 1
         else if even f then f else f + 1)"

text \<open>
  The binary exponent of a non-zero rational: the \<open>e\<close> with \<open>2^e \<le> |x| < 2^(e+1)\<close>,
  found from the bit lengths of numerator and denominator.
\<close>

definition exponent :: "rat \<Rightarrow> int" where
  "exponent x =
     (case quotient_of \<bar>x\<bar> of
        (p, q) \<Rightarrow>
          let t = bitlen p - bitlen q
          in if 2 powi t \<le> \<bar>x\<bar> then t else t - 1)"

text \<open>
  The spacing of the doubles around \<open>x\<close>: 53 significant bits, and the fixed spacing
  \<open>2^-1074\<close> of the subnormal range below \<open>2^-1022\<close>.
\<close>

definition quantum :: "rat \<Rightarrow> rat" where
  "quantum x = 2 powi (max (exponent x) (- 1022) - 52)"

text \<open>
  Rounding of an exact result to binary64, to nearest with ties to even; a result that
  rounds to \<open>2^1024\<close> or beyond is an infinity.
\<close>

definition round_double :: "rat \<Rightarrow> pyfloat" where
  "round_double x =
     (if x = 0 then Finite 0
      else
        let q = quantum x;
            y = of_int (round_half_even (x / q)) * q
        in if 2 powi 1024 \<le> \<bar>y\<bar> then (if 0 < x then PosInf else NegInf)
           else Finite y)"

text \<open>
  IEEE arithmetic on doubles. Each operation takes the rounding of a finite exact result
  as a parameter: \<open>round_double\<close> for Python's arithmetic, \<open>Finite\<close> for exact arithmetic.
\<close>

fun float_sign :: "pyfloat \<Rightarrow> int" where
  "float_sign (Finite x) = (if x < 0 then - 1 else if 0 < x then 1 else 0)"
| "float_sign PosInf = 1"
| "float_sign NegInf = - 1"
| "float_sign NaN = 0"

definition float_of_sign :: "int \<Rightarrow> pyfloat" where
  "float_of_sign s = (if s = 0 then NaN else if 0 < s then PosInf else NegInf)"

fun float_neg :: "pyfloat \<Rightarrow> pyfloat" where
  "float_neg (Finite x) = Finite (- x)"
| "float_neg PosInf = NegInf"
| "float_neg NegInf = PosInf"
| "float_neg NaN = NaN"

fun float_abs :: "pyfloat \<Rightarrow> pyfloat" where
  "float_abs (Finite x) = Finite \<bar>x\<bar>"
| "float_abs PosInf = PosInf"
| "float_abs NegInf = PosInf"
| "float_abs NaN = NaN"

fun float_add_by :: "(rat \<Rightarrow> pyfloat) \<Rightarrow> pyfloat \<Rightarrow> pyfloat \<Rightarrow> pyfloat" where
  "float_add_by rnd (Finite x) (Finite y) = rnd (x + y)"
| "float_add_by rnd NaN b = NaN"
| "float_add_by rnd a NaN = NaN"
| "float_add_by rnd PosInf NegInf = NaN"
| "float_add_by rnd NegInf PosInf = NaN"
| "float_add_by rnd PosInf b = PosInf"
| "float_add_by rnd NegInf b = NegInf"
| "float_add_by rnd (Finite x) b = b"

definition float_sub_by :: "(rat \<Rightarrow> pyfloat) \<Rightarrow> pyfloat \<Rightarrow> pyfloat \<Rightarrow> pyfloat" where
  "float_sub_by rnd a b = float_add_by rnd a (float_neg b)"

fun float_mul_by :: "(rat \<Rightarrow> pyfloat) \<Rightarrow> pyfloat \<Rightarrow> pyfloat \<Rightarrow> pyfloat" where
  "float_mul_by rnd (Finite x) (Finite y) = rnd (x * y)"
| "float_mul_by rnd a b =
     (if a = NaN \<or> b = NaN then NaN else float_of_sign (float_sign a * float_sign b))"

text \<open>
  Division. A zero divisor does not reach this function: Python raises before it divides,
  and \<open>linspace\<close> divides by a positive count.
\<close>

fun float_div_by :: "(rat \<Rightarrow> pyfloat) \<Rightarrow> pyfloat \<Rightarrow> pyfloat \<Rightarrow> pyfloat" where
  "float_div_by rnd (Finite x) (Finite y) = (if y = 0 then NaN else rnd (x / y))"
| "float_div_by rnd NaN b = NaN"
| "float_div_by rnd a NaN = NaN"
| "float_div_by rnd (Finite x) b = Finite 0"
| "float_div_by rnd a (Finite y) = float_of_sign (float_sign a * float_sign (Finite y))"
| "float_div_by rnd a b = NaN"

fun float_less :: "pyfloat \<Rightarrow> pyfloat \<Rightarrow> bool" where
  "float_less (Finite x) (Finite y) = (x < y)"
| "float_less NaN b = False"
| "float_less a NaN = False"
| "float_less a NegInf = False"
| "float_less NegInf b = True"
| "float_less PosInf b = False"
| "float_less (Finite x) PosInf = True"

subsection \<open>Python numbers\<close>

datatype pynum = PyInt int | PyFloat pyfloat

text \<open>The exact value of a number.\<close>

fun exact_value :: "pynum \<Rightarrow> pyfloat" where
  "exact_value (PyInt i) = Finite (of_int i)"
| "exact_value (PyFloat f) = f"

text \<open>
  Python compares an \<^verbatim>\<open>int\<close> with a \<^verbatim>\<open>float\<close> by their exact values; a comparison with
  NaN is false.
\<close>

instantiation pynum :: ord
begin

definition less_pynum :: "pynum \<Rightarrow> pynum \<Rightarrow> bool" where
  "less_pynum a b = float_less (exact_value a) (exact_value b)"

definition less_eq_pynum :: "pynum \<Rightarrow> pynum \<Rightarrow> bool" where
  "less_eq_pynum a b =
     (float_less (exact_value a) (exact_value b)
      \<or> (exact_value a = exact_value b \<and> exact_value a \<noteq> NaN))"

instance ..

end

text \<open>
  The conversion of an \<^verbatim>\<open>int\<close> operand of a mixed operation: rounded to nearest, and
  \<^verbatim>\<open>OverflowError\<close> when the integer is too large for a double.
\<close>

fun as_float :: "pynum \<Rightarrow> py_error + pyfloat" where
  "as_float (PyFloat f) = Inr f"
| "as_float (PyInt i) =
     (case round_double (of_int i) of
        Finite y \<Rightarrow> Inr (Finite y)
      | _ \<Rightarrow> Inl OverflowError)"

text \<open>A float literal of the source, such as \<^verbatim>\<open>0.01\<close>: the nearest double.\<close>

definition float_literal :: "rat \<Rightarrow> pynum" where
  "float_literal x = PyFloat (round_double x)"

definition float_op ::
  "(pyfloat \<Rightarrow> pyfloat \<Rightarrow> pyfloat) \<Rightarrow> pynum \<Rightarrow> pynum \<Rightarrow> py_error + pynum" where
  "float_op f a b =
     and_then (as_float a) (\<lambda>x. and_then (as_float b) (\<lambda>y. Inr (PyFloat (f x y))))"

text \<open>
  \<^verbatim>\<open>a + b\<close>, \<^verbatim>\<open>a - b\<close>, \<^verbatim>\<open>a * b\<close>: exact on two ints, in doubles otherwise. A float
  result that overflows is an infinity, not an exception.
\<close>

fun py_add :: "pynum \<Rightarrow> pynum \<Rightarrow> py_error + pynum" where
  "py_add (PyInt i) (PyInt j) = Inr (PyInt (i + j))"
| "py_add a b = float_op (float_add_by round_double) a b"

fun py_sub :: "pynum \<Rightarrow> pynum \<Rightarrow> py_error + pynum" where
  "py_sub (PyInt i) (PyInt j) = Inr (PyInt (i - j))"
| "py_sub a b = float_op (float_sub_by round_double) a b"

fun py_mul :: "pynum \<Rightarrow> pynum \<Rightarrow> py_error + pynum" where
  "py_mul (PyInt i) (PyInt j) = Inr (PyInt (i * j))"
| "py_mul a b = float_op (float_mul_by round_double) a b"

text \<open>
  True division \<^verbatim>\<open>a / b\<close>. Two ints give the correctly rounded quotient, or
  \<^verbatim>\<open>OverflowError\<close> when it is too large for a double; otherwise both operands are
  converted and the doubles divided. A zero divisor raises \<^verbatim>\<open>ZeroDivisionError\<close>.
\<close>

fun py_truediv :: "pynum \<Rightarrow> pynum \<Rightarrow> py_error + pynum" where
  "py_truediv (PyInt i) (PyInt j) =
     (if j = 0 then Inl ZeroDivisionError
      else case round_double (of_int i / of_int j) of
             Finite y \<Rightarrow> Inr (PyFloat (Finite y))
           | _ \<Rightarrow> Inl OverflowError)"
| "py_truediv a b =
     and_then (as_float a) (\<lambda>x.
     and_then (as_float b) (\<lambda>y.
       if y = Finite 0 then Inl ZeroDivisionError
       else Inr (PyFloat (float_div_by round_double x y))))"

fun py_abs :: "pynum \<Rightarrow> pynum" where
  "py_abs (PyInt i) = PyInt \<bar>i\<bar>"
| "py_abs (PyFloat f) = PyFloat (float_abs f)"

text \<open>
  \<^verbatim>\<open>math.ceil\<close>: an int is returned as it is; an infinity raises \<^verbatim>\<open>OverflowError\<close> and a
  NaN \<^verbatim>\<open>ValueError\<close>.
\<close>

fun py_ceil :: "pynum \<Rightarrow> py_error + int" where
  "py_ceil (PyInt i) = Inr i"
| "py_ceil (PyFloat (Finite x)) = Inr \<lceil>x\<rceil>"
| "py_ceil (PyFloat NaN) = Inl ValueError"
| "py_ceil (PyFloat f) = Inl OverflowError"

text \<open>
  Python's \<^verbatim>\<open>max(a, b)\<close> and \<^verbatim>\<open>min(a, b)\<close> of two arguments: the first argument is kept
  unless the second is strictly greater (smaller).
\<close>

definition py_max :: "'a::ord \<Rightarrow> 'a \<Rightarrow> 'a" where
  "py_max a b = (if a < b then b else a)"

definition py_min :: "'a::ord \<Rightarrow> 'a \<Rightarrow> 'a" where
  "py_min a b = (if b < a then b else a)"

text \<open>\<^verbatim>\<open>optools.utils.clip\<close>: the minimum is applied first, the maximum second.\<close>

definition clip :: "'a::ord \<Rightarrow> 'a option \<Rightarrow> 'a option \<Rightarrow> 'a" where
  "clip val minv maxv =
     (let val1 = (case minv of None \<Rightarrow> val | Some lo \<Rightarrow> py_max val lo);
          val2 = (case maxv of None \<Rightarrow> val1 | Some hi \<Rightarrow> py_min val1 hi)
      in val2)"

subsection \<open>The uniform family\<close>

text \<open>
  A uniform mesh line is an object of one of the three concrete classes. Each class stores
  \<open>start\<close>, \<open>stop\<close> and the one parameter it owns (\<open>division\<close>, an int; \<open>density\<close> or
  \<open>resolution\<close>, a number); the two other views are getters. \<open>binding\<close> is the
  containing object the mesh is a field of, if any (an opaque value of type \<open>'b\<close>).
\<close>

datatype 'b UniformMeshLine =
    DivisionUniformMeshLine (binding: "'b option") (start: pynum) (stop: pynum) int
  | DensityUniformMeshLine (binding: "'b option") (start: pynum) (stop: pynum) pynum
  | ResolutionUniformMeshLine (binding: "'b option") (start: pynum) (stop: pynum) pynum

datatype uniform_class = DivisionUniform | DensityUniform | ResolutionUniform

fun class_of :: "'b UniformMeshLine \<Rightarrow> uniform_class" where
  "class_of (DivisionUniformMeshLine b s e n) = DivisionUniform"
| "class_of (DensityUniformMeshLine b s e d) = DensityUniform"
| "class_of (ResolutionUniformMeshLine b s e r) = ResolutionUniform"

text \<open>\<^verbatim>\<open>MeshLine.length\<close>: \<^verbatim>\<open>abs(self.stop - self.start)\<close>.\<close>

definition length_mesh :: "'b UniformMeshLine \<Rightarrow> py_error + pynum" where
  "length_mesh self = and_then (py_sub (stop self) (start self)) (\<lambda>d. Inr (py_abs d))"

text \<open>
  The \<open>division\<close> view: stored by the division class,
  \<^verbatim>\<open>ceil(self.density * self.length + 1)\<close> in the density class,
  \<^verbatim>\<open>ceil(self.length / self.resolution + 1)\<close> in the resolution class.
\<close>

fun division :: "'b UniformMeshLine \<Rightarrow> py_error + int" where
  "division (DivisionUniformMeshLine b s e n) = Inr n"
| "division (DensityUniformMeshLine b s e d) =
     and_then (length_mesh (DensityUniformMeshLine b s e d)) (\<lambda>l.
     and_then (py_mul d l) (\<lambda>p.
     and_then (py_add p (PyInt 1)) py_ceil))"
| "division (ResolutionUniformMeshLine b s e r) =
     and_then (length_mesh (ResolutionUniformMeshLine b s e r)) (\<lambda>l.
     and_then (py_truediv l r) (\<lambda>q.
     and_then (py_add q (PyInt 1)) py_ceil))"

text \<open>
  The \<open>density\<close> view: \<^verbatim>\<open>self.division / self.length\<close> in the division and the
  resolution class, stored by the density class.
\<close>

fun density :: "'b UniformMeshLine \<Rightarrow> py_error + pynum" where
  "density (DensityUniformMeshLine b s e d) = Inr d"
| "density self =
     and_then (division self) (\<lambda>n.
     and_then (length_mesh self) (\<lambda>l. py_truediv (PyInt n) l))"

text \<open>
  The \<open>resolution\<close> view: \<^verbatim>\<open>self.length / self.division\<close> in the division and the
  density class, stored by the resolution class.
\<close>

fun resolution :: "'b UniformMeshLine \<Rightarrow> py_error + pynum" where
  "resolution (ResolutionUniformMeshLine b s e r) = Inr r"
| "resolution self =
     and_then (length_mesh self) (\<lambda>l.
     and_then (division self) (\<lambda>n. py_truediv l (PyInt n)))"

text \<open>
  Modelled from the spec: \<^verbatim>\<open>numpy.linspace(start, stop, num)\<close>, the spec's
  \<open>evenly_spaced(start, stop, count)\<close>, belongs to the array library, which is not under
  \<^verbatim>\<open>src/\<close>: \<open>count\<close> evenly spaced values inclusive of \<open>start\<close> and \<open>stop\<close>. The
  definition is numpy's algorithm in exact arithmetic, on the exact values of the
  endpoints: a negative \<open>num\<close> raises \<^verbatim>\<open>ValueError\<close>; with \<open>dv = num - 1\<close> and
  \<open>delta = stop - start\<close> the entries are \<open>i * (delta / dv) + start\<close> for
  \<open>i = 0, ..., num - 1\<close> when \<open>0 < dv\<close> and \<open>i * delta + start\<close> otherwise; when
  \<open>1 < num\<close> the last entry is overwritten with \<open>stop\<close>.
\<close>

definition linspace :: "pynum \<Rightarrow> pynum \<Rightarrow> int \<Rightarrow> py_error + pyfloat list" where
  "linspace start' stop' num =
     (if num < 0 then Inl ValueError
      else
        let a = exact_value start';
            b = exact_value stop';
            dv = num - 1;
            delta = float_sub_by Finite b a;
            step = (if 0 < dv then float_div_by Finite delta (Finite (of_int dv)) else delta);
            y = map (\<lambda>i. float_add_by Finite (float_mul_by Finite (Finite (of_nat i)) step) a)
                  [0..<nat num]
        in Inr (if 1 < num then y[nat num - 1 := b] else y))"

text \<open>\<^verbatim>\<open>UniformMeshLine.points\<close>: \<^verbatim>\<open>np.linspace(self.start, self.stop, self.division)\<close>.\<close>

definition points :: "'b UniformMeshLine \<Rightarrow> py_error + pyfloat list" where
  "points self = and_then (division self) (\<lambda>n. linspace (start self) (stop self) n)"

text \<open>
  \<^verbatim>\<open>ConstantMeshLine.evaluate\<close>: \<^verbatim>\<open>x = self.points; return x, func(x)\<close>. The function is
  called once, on the whole list of points.
\<close>

definition evaluate ::
  "'b UniformMeshLine \<Rightarrow> (pyfloat list \<Rightarrow> 'v) \<Rightarrow> py_error + pyfloat list \<times> 'v" where
  "evaluate self func = and_then (points self) (\<lambda>x. Inr (x, func x))"

subsection \<open>Withers of the uniform family\<close>

text \<open>
  The keyword dictionary given to \<^verbatim>\<open>with_params\<close>: a key is present (\<open>Some\<close>) or
  absent (\<open>None\<close>).
\<close>

record uniform_params =
  p_start :: "pynum option"
  p_stop :: "pynum option"
  p_division :: "int option"
  p_density :: "pynum option"
  p_resolution :: "pynum option"

definition no_params :: uniform_params where
  "no_params = \<lparr>p_start = None, p_stop = None, p_division = None,
                 p_density = None, p_resolution = None\<rparr>"

text \<open>
  Modelled from the spec: the binding of the parametrized-object package, which is not
  under \<^verbatim>\<open>src/\<close>. A bound mesh is a field of a containing object, and
  \<^verbatim>\<open>self.binding.transfer(newobj)\<close> returns the containing object with the mesh field
  replaced. A wither so returns the new mesh itself (\<open>Detached\<close>) or the containing object
  together with the mesh now installed in it (\<open>Transferred\<close>).
\<close>

datatype ('b, 'm) wither_result = Detached 'm | Transferred 'b 'm

fun new_mesh :: "('b, 'm) wither_result \<Rightarrow> 'm" where
  "new_mesh (Detached m) = m"
| "new_mesh (Transferred c m) = m"

text \<open>
  Modelled from the spec: the constructors of the parametrized-object package, which is
  not under \<^verbatim>\<open>src/\<close>. A class called with keywords stores them, an absent parameter
  taking its declared default; \<^verbatim>\<open>self.__class__(self, **params)\<close> copies \<open>self\<close> with
  the keywords overridden. In \<open>with_params\<close> this call is reached when \<open>params\<close> holds
  none of the three views: the result is an object of the class of \<open>self\<close> with the owned
  parameter of \<open>self\<close> and the given \<open>start\<close> and \<open>stop\<close>. A new object is not bound.
\<close>

fun copy_with :: "'b UniformMeshLine \<Rightarrow> pynum \<Rightarrow> pynum \<Rightarrow> 'b UniformMeshLine" where
  "copy_with (DivisionUniformMeshLine b s e n) s' e' = DivisionUniformMeshLine None s' e' n"
| "copy_with (DensityUniformMeshLine b s e d) s' e' = DensityUniformMeshLine None s' e' d"
| "copy_with (ResolutionUniformMeshLine b s e r) s' e' = ResolutionUniformMeshLine None s' e' r"

text \<open>
  \<^verbatim>\<open>UniformMeshLine.with_params\<close>. The class called with \<^verbatim>\<open>**params\<close> reads \<open>start\<close>,
  \<open>stop\<close> and the parameter it owns, which is present in the branch that calls it.
\<close>

definition with_params ::
  "'b UniformMeshLine \<Rightarrow> uniform_params \<Rightarrow> ('b, 'b UniformMeshLine) wither_result" where
  "with_params self params =
     (let start' = (case p_start params of None \<Rightarrow> start self | Some s \<Rightarrow> s);
          stop' = (case p_stop params of None \<Rightarrow> stop self | Some e \<Rightarrow> e);
          newobj =
            (case p_division params of
               Some n \<Rightarrow> DivisionUniformMeshLine None start' stop' n
             | None \<Rightarrow>
                (case p_density params of
                   Some d \<Rightarrow> DensityUniformMeshLine None start' stop' d
                 | None \<Rightarrow>
                    (case p_resolution params of
                       Some r \<Rightarrow> ResolutionUniformMeshLine None start' stop' r
                     | None \<Rightarrow> copy_with self start' stop')))
      in case binding self of
           Some c \<Rightarrow> Transferred c newobj
         | None \<Rightarrow> Detached newobj)"

text \<open>
  The three withers. An omitted value (\<open>None\<close>) is read from the view of \<open>self\<close>, which
  may raise; the value is clipped and handed to \<open>with_params\<close>.
\<close>

definition with_division ::
  "'b UniformMeshLine \<Rightarrow> int option \<Rightarrow> int option \<Rightarrow> int option
     \<Rightarrow> py_error + ('b, 'b UniformMeshLine) wither_result" where
  "with_division self division' min_division max_division =
     (case (case division' of None \<Rightarrow> division self | Some n \<Rightarrow> Inr n) of
        Inl err \<Rightarrow> Inl err
      | Inr n \<Rightarrow>
          Inr (with_params self
                 (no_params\<lparr>p_division := Some (clip n min_division max_division)\<rparr>)))"

definition with_density ::
  "'b UniformMeshLine \<Rightarrow> pynum option \<Rightarrow> pynum option \<Rightarrow> pynum option
     \<Rightarrow> py_error + ('b, 'b UniformMeshLine) wither_result" where
  "with_density self density' min_density max_density =
     (case (case density' of None \<Rightarrow> density self | Some d \<Rightarrow> Inr d) of
        Inl err \<Rightarrow> Inl err
      | Inr d \<Rightarrow>
          Inr (with_params self
                 (no_params\<lparr>p_density := Some (clip d min_density max_density)\<rparr>)))"


subsection \<open>The adaptive family\<close>









subsection \<open>Finite numbers\<close>

text \<open>The value of a finite number, as a rational.\<close>

fun rat_value :: "pynum \<Rightarrow> rat option" where
  "rat_value (PyInt i) = Some (of_int i)"
| "rat_value (PyFloat (Finite x)) = Some x"
| "rat_value (PyFloat f) = None"

text \<open>A finite number that a mixed operation can take: a finite double, or an int in the
  range of the doubles.\<close>

definition finite_number :: "pynum \<Rightarrow> bool" where
  "finite_number a = (case as_float a of Inr (Finite x) \<Rightarrow> True | _ \<Rightarrow> False)"


text \<open>A float the machine can hold: its finite value is a double.\<close>

fun is_double :: "pynum \<Rightarrow> bool" where
  "is_double (PyFloat (Finite x)) = (round_double x = Finite x)"
| "is_double a = True"

text \<open>The two zeros a length can be: the int 0 and the double 0.0.\<close>

definition zero_number :: "pynum \<Rightarrow> bool" where
  "zero_number z = (z = PyInt 0 \<or> z = PyFloat (Finite 0))"

section \<open>Properties\<close>

subsection \<open>Clipping and the withers\<close>



lemma clip_none: "clip v None None = v"
  by (simp add: clip_def)









lemma new_mesh_with_params_division:
  "new_mesh (with_params self (no_params\<lparr>p_division := Some n\<rparr>)) =
     DivisionUniformMeshLine None (start self) (stop self) n"
  by (simp add: with_params_def no_params_def Let_def split: option.split)

lemma new_mesh_with_params_density:
  "new_mesh (with_params self (no_params\<lparr>p_density := Some d\<rparr>)) =
     DensityUniformMeshLine None (start self) (stop self) d"
  by (simp add: with_params_def no_params_def Let_def split: option.split)




lemma with_params_result:
  "with_params self params =
     (case binding self of
        Some c \<Rightarrow> Transferred c (new_mesh (with_params self params))
      | None \<Rightarrow> Detached (new_mesh (with_params self params)))"
  by (simp add: with_params_def Let_def split: option.split)

lemma with_params_class:
  "class_of (new_mesh (with_params self params)) =
     (if p_division params \<noteq> None then DivisionUniform
      else if p_density params \<noteq> None then DensityUniform
      else if p_resolution params \<noteq> None then ResolutionUniform
      else class_of self)"
  by (cases self) (auto simp add: with_params_def Let_def split: option.split)

lemma with_params_start:
  "start (new_mesh (with_params self params)) =
     (case p_start params of None \<Rightarrow> start self | Some s \<Rightarrow> s)"
  by (cases self) (auto simp add: with_params_def Let_def split: option.split)

lemma with_params_stop:
  "stop (new_mesh (with_params self params)) =
     (case p_stop params of None \<Rightarrow> stop self | Some e \<Rightarrow> e)"
  by (cases self) (auto simp add: with_params_def Let_def split: option.split)

lemma with_density_given:
  "with_density self (Some x) mn mx =
     Inr (with_params self (no_params\<lparr>p_density := Some (clip x mn mx)\<rparr>))"
  by (simp add: with_density_def)

lemma with_division_given:
  "with_division self (Some n) mn mx =
     Inr (with_params self (no_params\<lparr>p_division := Some (clip n mn mx)\<rparr>))"
  by (simp add: with_division_def)














text \<open>
  C3. \<open>with_params\<close> on a uniform mesh builds a mesh of the division class when the
  parameters hold \<open>division\<close>, else of the density class when they hold \<open>density\<close>, else of
  the resolution class when they hold \<open>resolution\<close>, else of the class of \<open>self\<close>; its
  \<open>start\<close> and \<open>stop\<close> are those of \<open>self\<close> unless the parameters override them; the new
  mesh is what is returned (a bound mesh returns it installed in its container). In
  particular \<open>with_density(x)\<close> builds a density-driven mesh of density \<open>x\<close> from any
  uniform mesh.
\<close>

theorem with_params_family_switching:
  "class_of (new_mesh (with_params self params)) =
     (if p_division params \<noteq> None then DivisionUniform
      else if p_density params \<noteq> None then DensityUniform
      else if p_resolution params \<noteq> None then ResolutionUniform
      else class_of self)
   \<and> start (new_mesh (with_params self params)) =
       (case p_start params of None \<Rightarrow> start self | Some s \<Rightarrow> s)
   \<and> stop (new_mesh (with_params self params)) =
       (case p_stop params of None \<Rightarrow> stop self | Some e \<Rightarrow> e)
   \<and> with_params self params =
       (case binding self of
          Some c \<Rightarrow> Transferred c (new_mesh (with_params self params))
        | None \<Rightarrow> Detached (new_mesh (with_params self params)))
   \<and> (\<exists>r. with_density self (Some x) None None = Inr r
          \<and> new_mesh r = DensityUniformMeshLine None (start self) (stop self) x
          \<and> class_of (new_mesh r) = DensityUniform
          \<and> density (new_mesh r) = Inr x)"
proof (intro conjI)
  show "\<exists>r. with_density self (Some x) None None = Inr r
          \<and> new_mesh r = DensityUniformMeshLine None (start self) (stop self) x
          \<and> class_of (new_mesh r) = DensityUniform
          \<and> density (new_mesh r) = Inr x"
    by (simp add: with_density_given new_mesh_with_params_density clip_none)
qed (rule with_params_class with_params_start with_params_stop with_params_result)+

theorem with_params_family_switching_witness:
  "class_of (new_mesh (with_params
      (ResolutionUniformMeshLine (None :: unit option) (PyInt 5) (PyInt 10) (float_literal (1 / 2)))
      (no_params\<lparr>p_stop := Some (PyInt 11), p_density := Some (PyInt 12),
                 p_resolution := Some (PyInt 1)\<rparr>))) = DensityUniform
   \<and> start (new_mesh (with_params
      (ResolutionUniformMeshLine (None :: unit option) (PyInt 5) (PyInt 10) (float_literal (1 / 2)))
      (no_params\<lparr>p_stop := Some (PyInt 11), p_density := Some (PyInt 12),
                 p_resolution := Some (PyInt 1)\<rparr>))) = PyInt 5
   \<and> stop (new_mesh (with_params
      (ResolutionUniformMeshLine (None :: unit option) (PyInt 5) (PyInt 10) (float_literal (1 / 2)))
      (no_params\<lparr>p_stop := Some (PyInt 11), p_density := Some (PyInt 12),
                 p_resolution := Some (PyInt 1)\<rparr>))) = PyInt 11"
  using with_params_family_switching
    [of "ResolutionUniformMeshLine (None :: unit option) (PyInt 5) (PyInt 10) (float_literal (1 / 2))"
        "no_params\<lparr>p_stop := Some (PyInt 11), p_density := Some (PyInt 12),
                   p_resolution := Some (PyInt 1)\<rparr>" "PyInt 12"]
  by (simp add: no_params_def)

text \<open>
  C8. For a mesh of any of the three uniform classes whose division view reads \<open>n\<close>,
  \<open>with_division(n)\<close> builds a mesh whose division view reads \<open>n\<close> again.
\<close>

theorem with_division_roundtrip:
  "division self = Inr n \<Longrightarrow>
     \<exists>r. with_division self (Some n) None None = Inr r \<and> division (new_mesh r) = Inr n"
  by (simp add: with_division_given new_mesh_with_params_division clip_none)

subsection \<open>Rounding to a double\<close>

lemma round_half_even_error: "\<bar>of_int (round_half_even m) - m\<bar> \<le> 1 / 2"
proof -
  have lo: "of_int \<lfloor>m\<rfloor> \<le> m" and hi: "m < of_int \<lfloor>m\<rfloor> + 1"
    by linarith+
  show ?thesis
    unfolding round_half_even_def Let_def
    using lo hi by (auto simp: abs_le_iff)
qed

lemma round_half_even_of_int [simp]: "round_half_even (of_int k) = k"
  by (simp add: round_half_even_def)

lemma bitlen_bounds_rat:
  assumes "0 < p"
  shows "(2 :: rat) powi (bitlen p - 1) \<le> of_int p" and "of_int p < (2 :: rat) powi bitlen p"
proof -
  have b1: "1 \<le> bitlen p"
    using assms bitlen_eq_zero_iff [of p] bitlen_nonneg [of p] by linarith
  from bitlen_bounds [OF assms]
  have lo: "2 ^ nat (bitlen p - 1) \<le> p" and hi: "p < 2 ^ nat (bitlen p)"
    by simp_all
  have "(of_int (2 ^ nat (bitlen p - 1)) :: rat) \<le> of_int p"
    using lo of_int_le_iff by blast
  then show "(2 :: rat) powi (bitlen p - 1) \<le> of_int p"
    using b1 by (simp add: power_int_def)
  have "(of_int p :: rat) < of_int (2 ^ nat (bitlen p))"
    using hi of_int_less_iff by blast
  then show "of_int p < (2 :: rat) powi bitlen p"
    using b1 by (simp add: power_int_def)
qed

lemma exponent_bounds:
  assumes "x \<noteq> 0"
  shows "2 powi exponent x \<le> \<bar>x\<bar>" and "\<bar>x\<bar> < 2 powi (exponent x + 1)"
proof -
  obtain p q where pq: "quotient_of \<bar>x\<bar> = (p, q)"
    by (cases "quotient_of \<bar>x\<bar>")
  have q: "0 < q"
    using pq by (rule quotient_of_denom_pos)
  have x: "\<bar>x\<bar> = of_int p / of_int q"
    using pq by (rule quotient_of_div)
  have "0 < \<bar>x\<bar>"
    using assms by simp
  then have p: "0 < p"
    using x q by (simp add: zero_less_divide_iff)
  define t where "t = bitlen p - bitlen q"
  have e: "exponent x = (if 2 powi t \<le> \<bar>x\<bar> then t else t - 1)"
    by (simp add: exponent_def pq t_def Let_def)
  have qr: "(0 :: rat) < of_int q"
    using q by simp
  have up: "\<bar>x\<bar> < 2 powi (t + 1)"
  proof -
    have "of_int p < (2 :: rat) powi bitlen p"
      using p by (rule bitlen_bounds_rat)
    also have "\<dots> = 2 powi (t + 1) * 2 powi (bitlen q - 1)"
      by (simp add: t_def flip: power_int_add)
    also have "\<dots> \<le> 2 powi (t + 1) * of_int q"
      using bitlen_bounds_rat(1) [OF q] by (simp add: mult_left_mono)
    finally show ?thesis
      using qr by (simp add: x pos_divide_less_eq)
  qed
  have lo: "2 powi (t - 1) < \<bar>x\<bar>"
  proof -
    have "(2 :: rat) powi (t - 1) * of_int q < 2 powi (t - 1) * 2 powi bitlen q"
      using bitlen_bounds_rat(2) [OF q] by (simp add: mult_strict_left_mono)
    also have "\<dots> = 2 powi (bitlen p - 1)"
      by (simp add: t_def flip: power_int_add)
    also have "\<dots> \<le> of_int p"
      using p by (rule bitlen_bounds_rat)
    finally show ?thesis
      using qr by (simp add: x pos_less_divide_eq)
  qed
  show "2 powi exponent x \<le> \<bar>x\<bar>"
    using e lo by (auto simp: less_imp_le)
  show "\<bar>x\<bar> < 2 powi (exponent x + 1)"
    using e up by (auto simp: not_le)
qed

lemma two_powi_less_cancel:
  assumes "(2 :: rat) powi a < 2 powi b"
  shows "a < b"
proof (rule ccontr)
  assume "\<not> a < b"
  then have "b \<le> a"
    by simp
  then have "(2 :: rat) powi b \<le> 2 powi a"
    by (rule power_int_increasing) simp
  with assms show False
    by simp
qed

lemma exponent_eqI:
  assumes "2 powi e \<le> \<bar>x\<bar>" and "\<bar>x\<bar> < 2 powi (e + 1)"
  shows "exponent x = e"
proof -
  have nz: "x \<noteq> 0"
  proof
    assume "x = 0"
    with assms(1) have "(2 :: rat) powi e \<le> 0"
      by simp
    moreover have "(0 :: rat) < 2 powi e"
      by simp
    ultimately show False
      by linarith
  qed
  note b = exponent_bounds [OF nz]
  have "(2 :: rat) powi e < 2 powi (exponent x + 1)"
    using assms(1) b(2) by simp
  then have 1: "e < exponent x + 1"
    by (rule two_powi_less_cancel)
  have "(2 :: rat) powi exponent x < 2 powi (e + 1)"
    using assms(2) b(1) by simp
  then have 2: "exponent x < e + 1"
    by (rule two_powi_less_cancel)
  from 1 2 show ?thesis
    by simp
qed

lemma quantum_pos: "0 < quantum x"
  by (simp add: quantum_def)


lemma round_double_finite:
  assumes "\<bar>of_int (round_half_even (x / quantum x)) * quantum x\<bar> < 2 ^ 1024"
  shows "round_double x = Finite (of_int (round_half_even (x / quantum x)) * quantum x)"
proof (cases "x = 0")
  case True
  then show ?thesis
    by (simp add: round_double_def round_half_even_def)
next
  case False
  have "\<not> 2 powi 1024 \<le> \<bar>of_int (round_half_even (x / quantum x)) * quantum x\<bar>"
    using assms by simp
  then show ?thesis
    using False unfolding round_double_def Let_def by (simp only: if_False)
qed


lemma exponent_nonneg:
  assumes "1 \<le> \<bar>x\<bar>"
  shows "0 \<le> exponent x"
proof -
  have "x \<noteq> 0"
    using assms by auto
  then have "\<bar>x\<bar> < 2 powi (exponent x + 1)"
    by (rule exponent_bounds)
  with assms have "(2 :: rat) powi 0 < 2 powi (exponent x + 1)"
    by simp
  then have "0 < exponent x + 1"
    by (rule two_powi_less_cancel)
  then show ?thesis
    by simp
qed

lemma abs_of_int_ge_1:
  assumes "i \<noteq> 0"
  shows "(1 :: rat) \<le> \<bar>of_int i\<bar>"
proof -
  have "1 \<le> \<bar>i\<bar>"
    using assms by simp
  then have "(of_int 1 :: rat) \<le> of_int \<bar>i\<bar>"
    using of_int_le_iff by blast
  then show ?thesis
    by simp
qed

lemma round_double_of_int:
  assumes "\<bar>i\<bar> < 2 ^ 53"
  shows "round_double (of_int i) = Finite (of_int i)"
proof (cases "i = 0")
  case True
  then show ?thesis
    by (simp add: round_double_def)
next
  case False
  define x :: rat where "x = of_int i"
  define k where "k = 52 - exponent x"
  have x1: "1 \<le> \<bar>x\<bar>"
    unfolding x_def using False by (rule abs_of_int_ge_1)
  then have e0: "0 \<le> exponent x"
    by (rule exponent_nonneg)
  have xn: "x \<noteq> 0"
    using x1 by auto
  have x53: "\<bar>x\<bar> < 2 ^ 53"
  proof -
    have "(of_int \<bar>i\<bar> :: rat) < of_int (2 ^ 53)"
      using assms of_int_less_iff by blast
    then show ?thesis by (simp add: x_def)
  qed
  moreover have "(2 :: rat) powi exponent x \<le> \<bar>x\<bar>"
    using xn by (rule exponent_bounds)
  ultimately have "(2 :: rat) powi exponent x < 2 powi 53"
    by simp
  then have "exponent x < 53"
    by (rule two_powi_less_cancel)
  then have k0: "0 \<le> k"
    by (simp add: k_def)
  have "max (exponent x) (- 1022) - 52 = - k"
    using e0 by (simp add: k_def)
  then have "quantum x = 2 powi (- k)"
    by (simp add: quantum_def)
  then have q: "quantum x = 1 / 2 ^ nat k"
    using k0 by (simp add: power_int_minus power_int_def field_simps)
  have d: "x / quantum x = of_int (i * 2 ^ nat k)"
    unfolding q by (simp add: x_def)
  have "of_int (round_half_even (x / quantum x)) * quantum x
          = of_int (i * 2 ^ nat k) * quantum x"
    by (simp only: d round_half_even_of_int)
  also have "\<dots> = x"
    unfolding q by (simp add: x_def)
  finally have y: "of_int (round_half_even (x / quantum x)) * quantum x = x" .
  have "\<bar>x\<bar> < 2 ^ 1024"
    using x53 by (rule less_trans) simp
  then have "\<bar>of_int (round_half_even (x / quantum x)) * quantum x\<bar> < 2 ^ 1024"
    by (simp only: y)
  then have "round_double x = Finite (of_int (round_half_even (x / quantum x)) * quantum x)"
    by (rule round_double_finite)
  then have "round_double x = Finite x"
    by (simp only: y)
  then show ?thesis
    unfolding x_def .
qed

lemma round_double_of_int_nonzero:
  assumes "i \<noteq> 0" and "round_double (of_int i) = Finite y"
  shows "y \<noteq> 0"
proof -
  define x :: rat where "x = of_int i"
  let ?q = "quantum x"
  have x1: "1 \<le> \<bar>x\<bar>"
    unfolding x_def using assms(1) by (rule abs_of_int_ge_1)
  then have e0: "0 \<le> exponent x"
    by (rule exponent_nonneg)
  have xn: "x \<noteq> 0"
    using x1 by auto
  have q_pos: "0 < ?q"
    by (rule quantum_pos)
  have qe: "?q = 2 powi (exponent x - 52)"
    using e0 by (simp add: quantum_def)
  have "(2 :: rat) powi (exponent x - 52 + 52) = 2 powi (exponent x - 52) * 2 powi 52"
    by (rule power_int_add) simp
  then have "?q * 2 ^ 52 = 2 powi exponent x"
    by (simp add: qe)
  also have "\<dots> \<le> \<bar>x\<bar>"
    using xn by (rule exponent_bounds)
  finally have "?q * 1 \<le> \<bar>x\<bar>"
    using q_pos by (simp add: order_trans [rotated])
  then have "1 \<le> \<bar>x\<bar> / ?q"
    using q_pos by (simp add: pos_le_divide_eq)
  moreover define z where "z = x / ?q"
  ultimately have big: "1 \<le> \<bar>z\<bar>"
    using q_pos by (simp add: abs_divide)
  have "round_half_even z \<noteq> 0"
  proof
    assume "round_half_even z = 0"
    with round_half_even_error [of z] have "\<bar>z\<bar> \<le> 1 / 2"
      by simp
    with big show False
      by simp
  qed
  then have "round_half_even (x / ?q) \<noteq> 0"
    unfolding z_def .
  then have ynz: "of_int (round_half_even (x / ?q)) * ?q \<noteq> 0"
    using q_pos by simp
  have "round_double x = Finite y"
    using assms(2) by (simp add: x_def)
  then have "y = of_int (round_half_even (x / ?q)) * ?q"
    using xn by (simp add: round_double_def Let_def split: if_splits)
  with ynz show ?thesis
    by simp
qed

lemma floor_rat_numeral_divide [simp]:
  "\<lfloor>(numeral a :: rat) / numeral b\<rfloor> = numeral a div numeral b"
  using floor_divide_of_int_eq [of "numeral a" "numeral b", where ?'a = rat] by simp

lemma round_double_eval:
  assumes "2 powi e \<le> \<bar>x\<bar>" and "\<bar>x\<bar> < 2 powi (e + 1)"
  shows "round_double x =
           (let q = 2 powi (max e (- 1022) - 52);
                y = of_int (round_half_even (x / q)) * q
            in if 2 powi 1024 \<le> \<bar>y\<bar> then (if 0 < x then PosInf else NegInf)
               else Finite y)"
proof -
  have e: "exponent x = e"
    using assms by (rule exponent_eqI)
  have "(0 :: rat) < 2 powi e"
    by simp
  with assms(1) have "x \<noteq> 0"
    by linarith
  then show ?thesis
    by (simp add: round_double_def quantum_def e Let_def)
qed

subsection \<open>Evaluating the arithmetic on numerals\<close>

lemma round_double_0 [simp]: "round_double 0 = Finite 0"
  by (simp add: round_double_def)

lemma round_double_1 [simp]: "round_double 1 = Finite 1"
  using round_double_of_int [of 1] by simp

lemma round_double_numeral:
  "(numeral k :: int) < 2 ^ 53 \<Longrightarrow> round_double (numeral k) = Finite (numeral k)"
  using round_double_of_int [of "numeral k"] by simp

lemma round_double_neg_numeral:
  "(numeral k :: int) < 2 ^ 53 \<Longrightarrow> round_double (- numeral k) = Finite (- numeral k)"
  using round_double_of_int [of "- numeral k"] by simp

lemma ceiling_rat_numeral_divide [simp]:
  "\<lceil>(numeral a :: rat) / numeral b\<rceil> = - (- numeral a div numeral b)"
  using floor_divide_of_int_eq [of "- numeral a" "numeral b", where ?'a = rat]
  by (simp add: ceiling_def)

lemmas py_eval =
  and_then_def float_op_def length_mesh_def float_sub_by_def float_of_sign_def Let_def
  round_half_even_def round_double_numeral round_double_neg_numeral float_literal_def
  less_pynum_def

subsection \<open>Python operations on finite numbers\<close>

lemma rat_value_cases:
  assumes "rat_value a = Some x"
  obtains i where "a = PyInt i" and "x = of_int i" | "a = PyFloat (Finite x)"
  using assms by (cases a rule: rat_value.cases) auto









subsection \<open>Rounding does not cross a double\<close>














lemma exact_value_finite: "rat_value s = Some a \<Longrightarrow> exact_value s = Finite a"
  by (cases s rule: rat_value.cases) auto







subsection \<open>Derived divisions and the requested bound\<close>

lemma py_abs_value:
  "rat_value (py_abs a) = map_option abs (rat_value a)"
  by (cases a rule: rat_value.cases) auto










theorem with_division_roundtrip_witness:
  "division (DensityUniformMeshLine (None :: unit option) (PyInt 5) (PyInt 10) (PyFloat (Finite 8)))
     = Inr 41
   \<and> (\<exists>r. with_division
            (DensityUniformMeshLine (None :: unit option) (PyInt 5) (PyInt 10) (PyFloat (Finite 8)))
            (Some 41) None None = Inr r
          \<and> division (new_mesh r) = Inr 41)"
proof -
  have h: "division (DensityUniformMeshLine (None :: unit option) (PyInt 5) (PyInt 10)
             (PyFloat (Finite 8))) = Inr 41"
    by (simp add: py_eval)
  show ?thesis
    using h with_division_roundtrip [OF h] by blast
qed

subsection \<open>Withers of the adaptive family\<close>









subsection \<open>Points of a uniform mesh\<close>

lemma linspace_finite:
  assumes "rat_value s = Some a" and "rat_value e = Some b" and "0 \<le> n"
  shows "linspace s e n =
           Inr (let step = (if 0 < n - 1 then (b - a) / of_int (n - 1) else b - a);
                    y = map (\<lambda>i. Finite (of_nat i * step + a)) [0..<nat n]
                in if 1 < n then y[nat n - 1 := Finite b] else y)"
proof -
  have n1: "(of_int (n - 1) :: rat) \<noteq> 0" if "0 < n - 1"
    using that by simp
  show ?thesis
    using assms(3) n1
    by (simp add: linspace_def Let_def float_sub_by_def exact_value_finite [OF assms(1)]
        exact_value_finite [OF assms(2)])
qed

lemma linspace_example:
  "linspace (PyInt 5) (PyInt 10) 11 =
     Inr (map Finite [5, 11 / 2, 6, 13 / 2, 7, 15 / 2, 8, 17 / 2, 9, 19 / 2, 10])"
  by (simp add: linspace_finite [where a = 5 and b = 10] Let_def upt_rec)

lemma linspace_ge2:
  assumes "rat_value s = Some a" and "rat_value e = Some b" and "2 \<le> n"
  shows "linspace s e n =
           Inr (map Finite (map (\<lambda>i. of_nat i * ((b - a) / of_int (n - 1)) + a) [0..<nat n]))"
proof -
  let ?step = "(b - a) / of_int (n - 1)"
  let ?y = "map (\<lambda>i. Finite (of_nat i * ?step + a)) [0..<nat n]"
  have last: "?y ! (nat n - 1) = Finite b"
  proof -
    have "nat n - 1 < nat n" using assms(3) by simp
    then have "?y ! (nat n - 1) = Finite (of_nat (nat n - 1) * ?step + a)"
      by simp
    moreover have "(of_nat (nat n - 1) :: rat) = of_int (n - 1)"
      using assms(3) by (simp add: of_nat_diff)
    moreover have "(of_int (n - 1) :: rat) \<noteq> 0"
      using assms(3) by simp
    ultimately show ?thesis by simp
  qed
  have "?y[nat n - 1 := Finite b] = ?y"
    using last by (metis list_update_id)
  moreover have "0 \<le> n"
    using assms(3) by simp
  ultimately show ?thesis
    using assms(3) by (simp add: linspace_finite [OF assms(1,2)] Let_def comp_def)
qed

lemma linspace_degenerate:
  assumes "rat_value s = Some a" and "0 \<le> n"
  shows "linspace s s n = Inr (replicate (nat n) (Finite a))"
proof -
  have y: "map (\<lambda>i. Finite (of_nat i * (0 :: rat) + a)) [0..<nat n] = replicate (nat n) (Finite a)"
    by (simp add: map_replicate_const)
  have "(replicate (nat n) (Finite a))[nat n - 1 := Finite a] = replicate (nat n) (Finite a)"
    by (rule nth_equalityI) (auto simp add: nth_list_update)
  then show ?thesis
    using assms(2) y by (simp add: linspace_finite [OF assms(1,1)] Let_def)
qed

text \<open>
  C5, as stated, fails: for \<open>DivisionUniformMeshLine(start=5, stop=10, division=11)\<close> the
  density is not 2.0 and the resolution is not 0.5.
\<close>

theorem division_example_counterexample:
  "\<not> (points (DivisionUniformMeshLine (None :: unit option) (PyInt 5) (PyInt 10) 11)
        = linspace (PyInt 5) (PyInt 10) 11
      \<and> density (DivisionUniformMeshLine (None :: unit option) (PyInt 5) (PyInt 10) 11)
        = Inr (PyFloat (Finite 2))
      \<and> resolution (DivisionUniformMeshLine (None :: unit option) (PyInt 5) (PyInt 10) 11)
        = Inr (PyFloat (Finite (1 / 2))))"
  by (simp add: py_eval round_double_eval [where e = 1])

text \<open>
  C5, amended. \<open>DivisionUniformMeshLine(start=5, stop=10, division=11)\<close> has the points
  \<open>linspace(5, 10, 11)\<close>, that is 5, 5.5, ..., 10, the density \<open>11 / 5\<close> as a double (2.2)
  and the resolution \<open>5 / 11\<close> as a double (0.45454545454545453).
\<close>

theorem division_example:
  "points (DivisionUniformMeshLine b (PyInt 5) (PyInt 10) 11) = linspace (PyInt 5) (PyInt 10) 11
   \<and> points (DivisionUniformMeshLine b (PyInt 5) (PyInt 10) 11) =
       Inr (map Finite [5, 11 / 2, 6, 13 / 2, 7, 15 / 2, 8, 17 / 2, 9, 19 / 2, 10])
   \<and> density (DivisionUniformMeshLine b (PyInt 5) (PyInt 10) 11) = Inr (float_literal (11 / 5))
   \<and> float_literal (11 / 5) = PyFloat (Finite (2476979795053773 / 1125899906842624))
   \<and> resolution (DivisionUniformMeshLine b (PyInt 5) (PyInt 10) 11) = Inr (float_literal (5 / 11))
   \<and> float_literal (5 / 11) = PyFloat (Finite (8188362958855447 / 18014398509481984))"
  by (simp add: points_def linspace_example py_eval round_double_eval [where e = 1]
      round_double_eval [where e = "- 2"])

subsection \<open>Meshes of length zero\<close>

lemma finite_number_PyInt:
  "finite_number (PyInt i) \<Longrightarrow> \<exists>y. round_double (of_int i) = Finite y"
  by (cases "round_double (of_int i)") (simp_all add: finite_number_def)

lemma finite_number_cases:
  assumes "finite_number a"
  obtains i y where "a = PyInt i" and "as_float a = Inr (Finite y)"
      and "round_double (of_int i) = Finite y"
    | x where "a = PyFloat (Finite x)"
proof (cases a)
  case (PyInt i)
  then obtain y where "round_double (of_int i) = Finite y"
    using assms finite_number_PyInt by blast
  with PyInt that(1) show ?thesis
    by simp
next
  case (PyFloat f)
  with assms that(2) show ?thesis
    by (cases f) (simp_all add: finite_number_def)
qed

lemma length_mesh_zero:
  assumes "start self = s" and "stop self = s" and "rat_value s = Some a"
  shows "\<exists>z. length_mesh self = Inr z \<and> zero_number z"
  using assms(3)
proof (cases rule: rat_value_cases)
  case (1 i)
  then show ?thesis
    using assms(1,2) by (simp add: length_mesh_def and_then_def zero_number_def)
next
  case 2
  then show ?thesis
    using assms(1,2)
    by (simp add: length_mesh_def and_then_def zero_number_def float_op_def float_sub_by_def)
qed

lemma py_mul_zero:
  assumes "finite_number d" and "zero_number z"
  shows "\<exists>p. py_mul d z = Inr p \<and> zero_number p"
  using assms(1)
proof (cases rule: finite_number_cases)
  case (1 i y)
  then show ?thesis
    using assms(2) by (auto simp add: zero_number_def float_op_def and_then_def)
next
  case (2 x)
  then show ?thesis
    using assms(2) by (auto simp add: zero_number_def float_op_def and_then_def)
qed

lemma ceil_zero_add_one:
  assumes "zero_number p"
  shows "and_then (py_add p (PyInt 1)) py_ceil = Inr 1"
  using assms by (auto simp add: zero_number_def float_op_def and_then_def)

lemma py_truediv_zero_numerator:
  assumes "finite_number r" and "rat_value r \<noteq> Some 0" and "zero_number z"
  shows "py_truediv z r = Inr (PyFloat (Finite 0))"
  using assms(1)
proof (cases rule: finite_number_cases)
  case (1 i y)
  then have i: "i \<noteq> 0"
    using assms(2) by auto
  then have "y \<noteq> 0"
    using 1(3) by (rule round_double_of_int_nonzero)
  then show ?thesis
    using 1 i assms(3) by (auto simp add: zero_number_def and_then_def)
next
  case (2 x)
  then have "x \<noteq> 0"
    using assms(2) by auto
  then show ?thesis
    using 2 assms(3) by (auto simp add: zero_number_def and_then_def)
qed

lemma py_truediv_zero_divisor:
  assumes "finite_number (PyInt n)" and "zero_number z"
  shows "py_truediv (PyInt n) z = Inl ZeroDivisionError"
proof -
  obtain y where "round_double (of_int n) = Finite y"
    using assms(1) finite_number_PyInt by blast
  then show ?thesis
    using assms(2) by (auto simp add: zero_number_def and_then_def)
qed

lemma py_truediv_zero_by_int:
  assumes "finite_number (PyInt n)" and "zero_number z"
  shows "py_truediv z (PyInt n) =
           (if n = 0 then Inl ZeroDivisionError else Inr (PyFloat (Finite 0)))"
proof (cases "n = 0")
  case True
  then show ?thesis
    using assms(2) by (auto simp add: zero_number_def and_then_def)
next
  case False
  then have "rat_value (PyInt n) \<noteq> Some 0"
    by simp
  with assms have "py_truediv z (PyInt n) = Inr (PyFloat (Finite 0))"
    by (simp add: py_truediv_zero_numerator)
  with False show ?thesis
    by simp
qed

lemma finite_number_one: "finite_number (PyInt 1)"
  by (simp add: finite_number_def)

lemma density_mesh_zero_length:
  assumes "rat_value s = Some a" and "finite_number d"
  shows "division (DensityUniformMeshLine b s s d) = Inr 1"
    and "resolution (DensityUniformMeshLine b s s d) = Inr (PyFloat (Finite 0))"
proof -
  let ?m = "DensityUniformMeshLine b s s d"
  obtain z where z: "length_mesh ?m = Inr z" "zero_number z"
    using length_mesh_zero [of ?m s a] assms(1) by auto
  obtain p where p: "py_mul d z = Inr p" "zero_number p"
    using py_mul_zero [OF assms(2) z(2)] by blast
  show dv: "division ?m = Inr 1"
    using z(1) p(1) ceil_zero_add_one [OF p(2)] by (simp add: and_then_def)
  have "py_truediv z (PyInt 1) = Inr (PyFloat (Finite 0))"
    using py_truediv_zero_by_int [OF finite_number_one z(2)] by simp
  then show "resolution ?m = Inr (PyFloat (Finite 0))"
    using z(1) dv by (simp add: and_then_def del: division.simps)
qed

lemma resolution_mesh_zero_length:
  assumes "rat_value s = Some a" and "finite_number r" and "rat_value r \<noteq> Some 0"
  shows "division (ResolutionUniformMeshLine b s s r) = Inr 1"
    and "density (ResolutionUniformMeshLine b s s r) = Inl ZeroDivisionError"
proof -
  let ?m = "ResolutionUniformMeshLine b s s r"
  obtain z where z: "length_mesh ?m = Inr z" "zero_number z"
    using length_mesh_zero [of ?m s a] assms(1) by auto
  have q: "py_truediv z r = Inr (PyFloat (Finite 0))"
    using assms(2,3) z(2) by (rule py_truediv_zero_numerator)
  have "zero_number (PyFloat (Finite 0))"
    by (simp add: zero_number_def)
  then have "and_then (py_add (PyFloat (Finite 0)) (PyInt 1)) py_ceil = Inr 1"
    by (rule ceil_zero_add_one)
  then show dv: "division ?m = Inr 1"
    using z(1) q by (simp add: and_then_def)
  have "py_truediv (PyInt 1) z = Inl ZeroDivisionError"
    using finite_number_one z(2) by (rule py_truediv_zero_divisor)
  then show "density ?m = Inl ZeroDivisionError"
    using z(1) dv by (simp add: and_then_def del: division.simps)
qed

text \<open>
  C7, as stated, fails: with \<open>start = stop\<close> the derived division of a density-driven and
  of a resolution-driven mesh is 1, not a division-by-zero error.
\<close>

theorem zero_length_derived_division_counterexample:
  "start (DensityUniformMeshLine (None :: unit option) (PyInt 5) (PyInt 5) (PyFloat (Finite 8))) =
     stop (DensityUniformMeshLine (None :: unit option) (PyInt 5) (PyInt 5) (PyFloat (Finite 8)))
   \<and> division (DensityUniformMeshLine (None :: unit option) (PyInt 5) (PyInt 5)
       (PyFloat (Finite 8))) = Inr 1
   \<and> division (DensityUniformMeshLine (None :: unit option) (PyInt 5) (PyInt 5)
       (PyFloat (Finite 8))) \<noteq> Inl ZeroDivisionError
   \<and> start (ResolutionUniformMeshLine (None :: unit option) (PyInt 5) (PyInt 5)
       (PyFloat (Finite (1 / 2)))) =
     stop (ResolutionUniformMeshLine (None :: unit option) (PyInt 5) (PyInt 5)
       (PyFloat (Finite (1 / 2))))
   \<and> division (ResolutionUniformMeshLine (None :: unit option) (PyInt 5) (PyInt 5)
       (PyFloat (Finite (1 / 2)))) = Inr 1
   \<and> division (ResolutionUniformMeshLine (None :: unit option) (PyInt 5) (PyInt 5)
       (PyFloat (Finite (1 / 2)))) \<noteq> Inl ZeroDivisionError"
  by (simp add: py_eval)

text \<open>
  C7, amended. For a density-driven mesh of finite density, and for a resolution-driven
  mesh of finite non-zero resolution, with \<open>start = stop\<close> finite: the derived division is
  1 and nothing is raised; the resolution view of the density-driven mesh is 0.0; the
  division-by-zero error is raised by the density view of the resolution-driven mesh
  (\<open>division / length\<close>).
\<close>

theorem zero_length_derived_division:
  assumes "rat_value s = Some a"
  shows "(finite_number d \<longrightarrow>
            division (DensityUniformMeshLine b s s d) = Inr 1
          \<and> resolution (DensityUniformMeshLine b s s d) = Inr (PyFloat (Finite 0)))
       \<and> (finite_number r \<and> rat_value r \<noteq> Some 0 \<longrightarrow>
            division (ResolutionUniformMeshLine b s s r) = Inr 1
          \<and> density (ResolutionUniformMeshLine b s s r) = Inl ZeroDivisionError)"
  using density_mesh_zero_length [OF assms] resolution_mesh_zero_length [OF assms]
  by blast

theorem zero_length_derived_division_witness:
  "rat_value (PyFloat (Finite 5)) = Some 5
   \<and> finite_number (PyInt 8)
   \<and> finite_number (PyFloat (Finite (1 / 2))) \<and> rat_value (PyFloat (Finite (1 / 2))) \<noteq> Some 0
   \<and> division (DensityUniformMeshLine (None :: unit option) (PyFloat (Finite 5))
        (PyFloat (Finite 5)) (PyInt 8)) = Inr 1
   \<and> division (ResolutionUniformMeshLine (None :: unit option) (PyFloat (Finite 5))
        (PyFloat (Finite 5)) (PyFloat (Finite (1 / 2)))) = Inr 1
   \<and> density (ResolutionUniformMeshLine (None :: unit option) (PyFloat (Finite 5))
        (PyFloat (Finite 5)) (PyFloat (Finite (1 / 2)))) = Inl ZeroDivisionError"
proof -
  have s: "rat_value (PyFloat (Finite 5)) = Some 5"
    by simp
  have d: "finite_number (PyInt 8)"
    by (simp add: finite_number_def round_double_numeral)
  have r: "finite_number (PyFloat (Finite (1 / 2))) \<and> rat_value (PyFloat (Finite (1 / 2))) \<noteq> Some 0"
    by (simp add: finite_number_def)
  show ?thesis
    using s d r
      zero_length_derived_division [OF s, of "PyInt 8" "None :: unit option" "PyFloat (Finite (1 / 2))"]
    by blast
qed

text \<open>
  C10, as stated, fails: for a division-driven mesh with \<open>start = stop\<close> and division 11
  the resolution view is 0.0, not a division-by-zero error.
\<close>

theorem zero_length_division_mesh_counterexample:
  "start (DivisionUniformMeshLine (None :: unit option) (PyInt 5) (PyInt 5) 11) =
     stop (DivisionUniformMeshLine (None :: unit option) (PyInt 5) (PyInt 5) 11)
   \<and> resolution (DivisionUniformMeshLine (None :: unit option) (PyInt 5) (PyInt 5) 11)
       = Inr (PyFloat (Finite 0))
   \<and> resolution (DivisionUniformMeshLine (None :: unit option) (PyInt 5) (PyInt 5) 11)
       \<noteq> Inl ZeroDivisionError"
  by (simp add: py_eval)

text \<open>
  C10, amended. For a division-driven mesh with \<open>start = stop\<close> finite and a division
  \<open>n \<ge> 0\<close> (in the range of the doubles): \<open>points\<close> and \<open>evaluate\<close> succeed, the points
  being \<open>n\<close> copies of \<open>start\<close>; the density view raises the division-by-zero error; the
  resolution view (\<open>length / division\<close>) is 0.0 when \<open>n \<noteq> 0\<close> and raises the
  division-by-zero error only when \<open>n = 0\<close>.
\<close>

theorem zero_length_division_mesh:
  assumes "0 \<le> n" and "rat_value s = Some a" and "finite_number (PyInt n)"
  shows "points (DivisionUniformMeshLine b s s n) = Inr (replicate (nat n) (Finite a))
       \<and> evaluate (DivisionUniformMeshLine b s s n) func =
           Inr (replicate (nat n) (Finite a), func (replicate (nat n) (Finite a)))
       \<and> density (DivisionUniformMeshLine b s s n) = Inl ZeroDivisionError
       \<and> resolution (DivisionUniformMeshLine b s s n) =
           (if n = 0 then Inl ZeroDivisionError else Inr (PyFloat (Finite 0)))"
proof -
  let ?m = "DivisionUniformMeshLine b s s n"
  obtain z where z: "length_mesh ?m = Inr z" "zero_number z"
    using length_mesh_zero [of ?m s a] assms(2) by auto
  have p: "points ?m = Inr (replicate (nat n) (Finite a))"
    using assms(1,2) by (simp add: points_def and_then_def linspace_degenerate)
  then have e: "evaluate ?m func =
           Inr (replicate (nat n) (Finite a), func (replicate (nat n) (Finite a)))"
    by (simp add: evaluate_def and_then_def)
  have d: "density ?m = Inl ZeroDivisionError"
    using z(1) py_truediv_zero_divisor [OF assms(3) z(2)] by (simp add: and_then_def)
  have r: "resolution ?m = (if n = 0 then Inl ZeroDivisionError else Inr (PyFloat (Finite 0)))"
    using z(1) py_truediv_zero_by_int [OF assms(3) z(2)] by (simp add: and_then_def)
  from p e d r show ?thesis
    by blast
qed

theorem zero_length_division_mesh_witness:
  "(0 :: int) \<le> 3 \<and> rat_value (PyInt 5) = Some 5 \<and> finite_number (PyInt 3)
   \<and> points (DivisionUniformMeshLine (None :: unit option) (PyInt 5) (PyInt 5) 3)
       = Inr [Finite 5, Finite 5, Finite 5]
   \<and> evaluate (DivisionUniformMeshLine (None :: unit option) (PyInt 5) (PyInt 5) 3) length
       = Inr ([Finite 5, Finite 5, Finite 5], 3)
   \<and> density (DivisionUniformMeshLine (None :: unit option) (PyInt 5) (PyInt 5) 3)
       = Inl ZeroDivisionError
   \<and> resolution (DivisionUniformMeshLine (None :: unit option) (PyInt 5) (PyInt 5) 3)
       = Inr (PyFloat (Finite 0))"
proof -
  have h: "(0 :: int) \<le> 3"
    by simp
  have s: "rat_value (PyInt 5) = Some 5"
    by simp
  have f: "finite_number (PyInt 3)"
    by (simp add: finite_number_def round_double_numeral)
  have r: "replicate (nat 3) (Finite 5) = [Finite 5, Finite 5, Finite 5]"
    by (simp add: numeral_3_eq_3)
  show ?thesis
    using h s f zero_length_division_mesh [OF h s f, of "None :: unit option" length] r
    by simp
qed

subsection \<open>Evenly spaced points\<close>

lemma float_sub_finite:
  assumes "float_sub_by round_double x y = Finite z"
  shows "\<exists>u v. x = Finite u \<and> y = Finite v"
  using assms by (cases x; cases y) (simp_all add: float_sub_by_def)

lemma as_float_finite:
  assumes "as_float e = Inr (Finite u)"
  shows "\<exists>a. rat_value e = Some a"
  using assms by (cases e) auto

lemma py_sub_finite_operands:
  assumes "py_sub e s = Inr d" and "rat_value d = Some t"
  shows "\<exists>a b. rat_value s = Some a \<and> rat_value e = Some b"
proof (cases "\<exists>i j. e = PyInt i \<and> s = PyInt j")
  case True
  then show ?thesis
    by auto
next
  case False
  then have "py_sub e s = float_op (float_sub_by round_double) e s"
    by (cases e; cases s) auto
  with assms(1) obtain x y where xy: "as_float e = Inr x" "as_float s = Inr y"
      "d = PyFloat (float_sub_by round_double x y)"
    by (auto simp add: float_op_def and_then_def split: sum.splits)
  from assms(2) xy(3) obtain z where "float_sub_by round_double x y = Finite z"
    by (cases "float_sub_by round_double x y") auto
  then obtain u v where "x = Finite u" "y = Finite v"
    using float_sub_finite by blast
  with xy(1,2) show ?thesis
    using as_float_finite by blast
qed

lemma length_mesh_finite_endpoints:
  assumes "length_mesh self = Inr L" and "rat_value L = Some l"
  shows "\<exists>a b. rat_value (start self) = Some a \<and> rat_value (stop self) = Some b"
proof -
  obtain d where d: "py_sub (stop self) (start self) = Inr d" and L: "L = py_abs d"
    using assms(1) by (auto simp add: length_mesh_def and_then_def split: sum.splits)
  from assms(2) L obtain t where "rat_value d = Some t"
    by (auto simp add: py_abs_value)
  with d show ?thesis
    by (rule py_sub_finite_operands)
qed

lemma py_sub_equal_values:
  assumes "rat_value e = Some a" and "rat_value s = Some a"
    and "is_double e" and "is_double s" and "py_sub e s = Inr d"
  shows "rat_value d = Some 0"
  using assms(1)
proof (cases rule: rat_value_cases)
  case e: (1 i)
  show ?thesis
    using assms(2)
  proof (cases rule: rat_value_cases)
    case (1 j)
    with e assms(5) show ?thesis
      by auto
  next
    case 2
    then have "round_double (of_int i) = Finite (of_int i)"
      using assms(4) e by simp
    with 2 e assms(5) show ?thesis
      by (auto simp add: float_op_def and_then_def float_sub_by_def)
  qed
next
  case e: 2
  show ?thesis
    using assms(2)
  proof (cases rule: rat_value_cases)
    case (1 j)
    then have "round_double (of_int j) = Finite (of_int j)"
      using assms(3) e by simp
    with 1 e assms(5) show ?thesis
      by (auto simp add: float_op_def and_then_def float_sub_by_def)
  next
    case 2
    with e assms(5) show ?thesis
      by (auto simp add: float_op_def and_then_def float_sub_by_def)
  qed
qed

lemma length_mesh_positive_distinct:
  assumes "length_mesh self = Inr L" and "rat_value L = Some l" and "0 < l"
    and "is_double (start self)" and "is_double (stop self)"
    and "rat_value (start self) = Some a" and "rat_value (stop self) = Some b"
  shows "a \<noteq> b"
proof
  assume "a = b"
  obtain d where d: "py_sub (stop self) (start self) = Inr d" and L: "L = py_abs d"
    using assms(1) by (auto simp add: length_mesh_def and_then_def split: sum.splits)
  have "rat_value d = Some 0"
    using assms(7) assms(6) [unfolded \<open>a = b\<close>] assms(5,4) d by (rule py_sub_equal_values)
  then have "rat_value L = Some 0"
    by (simp add: L py_abs_value)
  with assms(2,3) show False
    by simp
qed

lemma length_mesh_ints:
  assumes "length_mesh self = Inr L" and "rat_value L = Some l"
    and "start self = PyInt i" and "stop self = PyInt j"
  shows "l = \<bar>of_int j - of_int i\<bar>"
  using assms by (auto simp add: length_mesh_def and_then_def)

lemma even_grid_length:
  "length (map (\<lambda>i. of_nat i * (h :: rat) + a) [0..<k]) = k"
  by simp

lemma even_grid_hd:
  "0 < k \<Longrightarrow> hd (map (\<lambda>i. of_nat i * (h :: rat) + a) [0..<k]) = a"
  by (simp add: hd_map upt_conv_Cons)

lemma even_grid_last:
  "0 < k \<Longrightarrow> last (map (\<lambda>i. of_nat i * (h :: rat) + a) [0..<k]) = of_nat (k - 1) * h + a"
  by (simp add: last_map)

lemma even_grid_step:
  "Suc i < k \<Longrightarrow>
     map (\<lambda>i. of_nat i * (h :: rat) + a) [0..<k] ! Suc i
       - map (\<lambda>i. of_nat i * h + a) [0..<k] ! i = h"
  by (simp add: algebra_simps)

text \<open>
  C6, as stated, fails: the resolution-driven mesh on \<open>[0, 1]\<close> with resolution 0.75
  has division 3 and the points 0, 1/2, 1, whose intervals have size \<open>1 / 2\<close>, not the
  resolution view 0.75.
\<close>

theorem points_evenly_spaced_counterexample:
  "division (ResolutionUniformMeshLine (None :: unit option) (PyInt 0) (PyInt 1)
       (PyFloat (Finite (3 / 4)))) = Inr 3
   \<and> length_mesh (ResolutionUniformMeshLine (None :: unit option) (PyInt 0) (PyInt 1)
       (PyFloat (Finite (3 / 4)))) = Inr (PyInt 1)
   \<and> points (ResolutionUniformMeshLine (None :: unit option) (PyInt 0) (PyInt 1)
       (PyFloat (Finite (3 / 4)))) = Inr [Finite 0, Finite (1 / 2), Finite 1]
   \<and> resolution (ResolutionUniformMeshLine (None :: unit option) (PyInt 0) (PyInt 1)
       (PyFloat (Finite (3 / 4)))) = Inr (PyFloat (Finite (3 / 4)))
   \<and> Inr (PyFloat (Finite ([0, 1 / 2, 1 :: rat] ! 1 - [0, 1 / 2, 1] ! 0)))
       \<noteq> resolution (ResolutionUniformMeshLine (None :: unit option) (PyInt 0) (PyInt 1)
            (PyFloat (Finite (3 / 4))))"
proof -
  let ?m = "ResolutionUniformMeshLine (None :: unit option) (PyInt 0) (PyInt 1)
       (PyFloat (Finite (3 / 4)))"
  have d: "division ?m = Inr 3"
    by (simp add: py_eval round_double_eval [where e = 0] round_double_eval [where e = 1])
  have l: "linspace (PyInt 0) (PyInt 1) 3 = Inr [Finite 0, Finite (1 / 2), Finite 1]"
    by (simp add: linspace_finite [where a = 0 and b = 1] Let_def upt_rec)
  have p: "points ?m = Inr [Finite 0, Finite (1 / 2), Finite 1]"
    using d l by (simp add: points_def and_then_def del: division.simps)
  have len: "length_mesh ?m = Inr (PyInt 1)"
    by (simp add: py_eval)
  show ?thesis
    using d p len by simp
qed

text \<open>
  C6, amended. For a uniform mesh whose division view reads \<open>n \<ge> 2\<close> and whose length is
  finite and positive (its endpoints being doubles or ints), \<open>points\<close> holds \<open>n\<close> values,
  the first \<open>start\<close> and the last \<open>stop\<close>, forming \<open>n - 1\<close> intervals of the same positive
  size \<open>|stop - start| / (n - 1)\<close> (the signed step is \<open>(stop - start) / (n - 1)\<close>); with
  int endpoints \<open>|stop - start|\<close> is the length view itself.
\<close>

theorem points_evenly_spaced:
  assumes "division self = Inr n" and "2 \<le> n"
    and "length_mesh self = Inr L" and "rat_value L = Some l" and "0 < l"
    and "is_double (start self)" and "is_double (stop self)"
  shows "\<exists>a b ps. rat_value (start self) = Some a \<and> rat_value (stop self) = Some b
          \<and> points self = Inr (map Finite ps)
          \<and> length ps = nat n
          \<and> hd ps = a
          \<and> last ps = b
          \<and> (\<forall>i. Suc i < nat n \<longrightarrow>
                ps ! Suc i - ps ! i = (b - a) / of_int (n - 1)
              \<and> \<bar>ps ! Suc i - ps ! i\<bar> = \<bar>b - a\<bar> / of_int (n - 1))
          \<and> 0 < \<bar>b - a\<bar> / of_int (n - 1)
          \<and> ((\<exists>i j. start self = PyInt i \<and> stop self = PyInt j) \<longrightarrow> l = \<bar>b - a\<bar>)"
proof -
  obtain a b where a: "rat_value (start self) = Some a" and b: "rat_value (stop self) = Some b"
    using length_mesh_finite_endpoints [OF assms(3,4)] by blast
  have ab: "a \<noteq> b"
    using assms(3,4,5,6,7) a b by (rule length_mesh_positive_distinct)
  let ?h = "(b - a) / of_int (n - 1)"
  let ?ps = "map (\<lambda>i. of_nat i * ?h + a) [0..<nat n]"
  have k: "0 < nat n"
    using assms(2) by simp
  have n1: "(0 :: rat) < of_int (n - 1)"
    using assms(2) by simp
  have p: "points self = Inr (map Finite ?ps)"
    using assms(1) linspace_ge2 [OF a b assms(2)] by (simp add: points_def and_then_def)
  have len: "length ?ps = nat n"
    by (rule even_grid_length)
  have first: "hd ?ps = a"
    using k by (rule even_grid_hd)
  have "(of_nat (nat n - 1) :: rat) = of_int (n - 1)"
    using assms(2) by (simp add: of_nat_diff)
  then have "of_nat (nat n - 1) * ?h + a = b"
    using n1 by simp
  then have final: "last ?ps = b"
    using even_grid_last [OF k, of ?h a] by simp
  have habs: "\<bar>?h\<bar> = \<bar>b - a\<bar> / of_int (n - 1)"
    using n1 by (simp add: abs_divide)
  have steps: "\<forall>i. Suc i < nat n \<longrightarrow>
                ?ps ! Suc i - ?ps ! i = ?h
              \<and> \<bar>?ps ! Suc i - ?ps ! i\<bar> = \<bar>b - a\<bar> / of_int (n - 1)"
  proof (intro allI impI)
    fix i
    assume i: "Suc i < nat n"
    have "?ps ! Suc i - ?ps ! i = ?h"
      using i by (rule even_grid_step)
    with habs show "?ps ! Suc i - ?ps ! i = ?h
              \<and> \<bar>?ps ! Suc i - ?ps ! i\<bar> = \<bar>b - a\<bar> / of_int (n - 1)"
      by simp
  qed
  have pos: "0 < \<bar>b - a\<bar> / of_int (n - 1)"
    using ab n1 by simp
  have ints: "(\<exists>i j. start self = PyInt i \<and> stop self = PyInt j) \<longrightarrow> l = \<bar>b - a\<bar>"
    using length_mesh_ints [OF assms(3,4)] a b by auto
  from a b p len first final steps pos ints show ?thesis
    by blast
qed

theorem points_evenly_spaced_witness:
  "division (ResolutionUniformMeshLine (None :: unit option) (PyInt 0) (PyInt 1)
       (PyFloat (Finite (3 / 4)))) = Inr 3
   \<and> (2 :: int) \<le> 3
   \<and> length_mesh (ResolutionUniformMeshLine (None :: unit option) (PyInt 0) (PyInt 1)
       (PyFloat (Finite (3 / 4)))) = Inr (PyInt 1)
   \<and> (\<exists>ps. points (ResolutionUniformMeshLine (None :: unit option) (PyInt 0) (PyInt 1)
              (PyFloat (Finite (3 / 4)))) = Inr (map Finite ps)
          \<and> length ps = 3 \<and> hd ps = 0 \<and> last ps = 1
          \<and> ps ! 1 - ps ! 0 = 1 / 2 \<and> ps ! 2 - ps ! 1 = 1 / 2)"
proof -
  let ?m = "ResolutionUniformMeshLine (None :: unit option) (PyInt 0) (PyInt 1)
       (PyFloat (Finite (3 / 4)))"
  have d: "division ?m = Inr 3"
    by (simp add: py_eval round_double_eval [where e = 0] round_double_eval [where e = 1])
  have n: "(2 :: int) \<le> 3"
    by simp
  have l: "length_mesh ?m = Inr (PyInt 1)"
    by (simp add: py_eval)
  have v: "rat_value (PyInt 1) = Some 1"
    by simp
  have p: "(0 :: rat) < 1"
    by simp
  have s: "is_double (start ?m)" and e: "is_double (stop ?m)"
    by simp_all
  obtain a b ps where ps: "rat_value (start ?m) = Some a" "rat_value (stop ?m) = Some b"
      "points ?m = Inr (map Finite ps)" "length ps = nat 3" "hd ps = a" "last ps = b"
      "\<forall>i. Suc i < nat 3 \<longrightarrow> ps ! Suc i - ps ! i = (b - a) / of_int (3 - 1)
           \<and> \<bar>ps ! Suc i - ps ! i\<bar> = \<bar>b - a\<bar> / of_int (3 - 1)"
    using points_evenly_spaced [OF d n l v p s e] by blast
  from ps(1,2) have ab: "a = 0" "b = 1"
    by simp_all
  from ps(7) have "ps ! Suc 0 - ps ! 0 = (b - a) / of_int (3 - 1)"
    by simp
  then have s0: "ps ! 1 - ps ! 0 = 1 / 2"
    using ab by simp
  from ps(7) have "ps ! Suc 1 - ps ! 1 = (b - a) / of_int (3 - 1)"
    by simp
  then have s1: "ps ! 2 - ps ! 1 = 1 / 2"
    using ab by (simp add: numeral_2_eq_2)
  from ps(3-6) ab s0 s1 d n l show ?thesis
    by auto
qed

end
